theory Spec2Isabelle
  imports Complex_Main
begin

section \<open>The interactive viewport of \<open>uniplot.plot\<close>\<close>

text \<open>
  The development embeds \<^verbatim>\<open>plot\<close> of \<^verbatim>\<open>src/uniplot/uniplot.py\<close>.
  In \<open>handle_key\<close> Python floats are read as real numbers, so the statements about
  it are statements of exact arithmetic. \<open>handle_key_double\<close> is the same chain of
  branches on binary64 numbers, with rounding, overflow and NaN.
\<close>

subsection \<open>The options object\<close>

text \<open>
  The fields of \<^verbatim>\<open>options\<close> that \<^verbatim>\<open>plot\<close> reads or writes. The class itself
  (\<^verbatim>\<open>uniplot.options.Options\<close>) is not part of the source at hand; its field
  \<open>initial_bounds\<close> is the reset target that the specification describes
  ("Stores original Bounds separately as reset target"), in the order
  \<open>(x_min, x_max, y_min, y_max)\<close>.
\<close>

record options =
  x_min :: real
  x_max :: real
  y_min :: real
  y_max :: real
  width :: int
  height :: int
  lines :: bool
  color :: bool
  interactive :: bool
  title :: "string option"
  legend_labels :: "string list option"
  initial_bounds :: "real \<times> real \<times> real \<times> real"

definition bounds :: "options \<Rightarrow> real \<times> real \<times> real \<times> real" where
  "bounds opts = (x_min opts, x_max opts, y_min opts, y_max opts)"

text \<open>
  Modelled from the spec: \<^verbatim>\<open>Options.reset_view\<close> is missing from the source. The
  specification's transition table gives it as "reset: Bounds := original Bounds
  captured at session start"; nothing else of the options changes.
\<close>

definition reset_view :: "options \<Rightarrow> options" where
  "reset_view opts =
     (case initial_bounds opts of
        (x0, x1, y0, y1) \<Rightarrow> opts\<lparr>x_min := x0, x_max := x1, y_min := y0, y_max := y1\<rparr>)"

subsection \<open>One keystroke (lines 76 to 116)\<close>

text \<open>
  \<open>key_pressed\<close> is the value of \<^verbatim>\<open>getch().lower()\<close>, the string that the chain
  of comparisons inspects. The second component of the state is the local variable
  \<^verbatim>\<open>continue_looping\<close>. Each branch reads \<^verbatim>\<open>step\<close> from the options as they are
  when the branch starts; the two zoom branches recompute \<^verbatim>\<open>step\<close> for the y axis
  after the x axis has been written, which does not touch the y fields.
\<close>

definition escape_key :: string where
  "escape_key = [CHR 0x1B]"

definition handle_key :: "string \<Rightarrow> options \<times> bool \<Rightarrow> options \<times> bool" where
  "handle_key key_pressed st =
     (let opts = fst st; continue_looping = snd st in
      if key_pressed = ''h'' then
        (let step = 0.1 * (x_max opts - x_min opts);
             opts = opts\<lparr>x_min := x_min opts - step\<rparr>;
             opts = opts\<lparr>x_max := x_max opts - step\<rparr>
         in (opts, continue_looping))
      else if key_pressed = ''l'' then
        (let step = 0.1 * (x_max opts - x_min opts);
             opts = opts\<lparr>x_min := x_min opts + step\<rparr>;
             opts = opts\<lparr>x_max := x_max opts + step\<rparr>
         in (opts, continue_looping))
      else if key_pressed = ''j'' then
        (let step = 0.1 * (y_max opts - y_min opts);
             opts = opts\<lparr>y_min := y_min opts - step\<rparr>;
             opts = opts\<lparr>y_max := y_max opts - step\<rparr>
         in (opts, continue_looping))
      else if key_pressed = ''k'' then
        (let step = 0.1 * (y_max opts - y_min opts);
             opts = opts\<lparr>y_min := y_min opts + step\<rparr>;
             opts = opts\<lparr>y_max := y_max opts + step\<rparr>
         in (opts, continue_looping))
      else if key_pressed = ''u'' then
        (let step = 0.1 * (x_max opts - x_min opts);
             opts = opts\<lparr>x_min := x_min opts + step\<rparr>;
             opts = opts\<lparr>x_max := x_max opts - step\<rparr>;
             step = 0.1 * (y_max opts - y_min opts);
             opts = opts\<lparr>y_min := y_min opts + step\<rparr>;
             opts = opts\<lparr>y_max := y_max opts - step\<rparr>
         in (opts, continue_looping))
      else if key_pressed = ''n'' then
        (let step = 0.1 * (x_max opts - x_min opts);
             opts = opts\<lparr>x_min := x_min opts - step\<rparr>;
             opts = opts\<lparr>x_max := x_max opts + step\<rparr>;
             step = 0.1 * (y_max opts - y_min opts);
             opts = opts\<lparr>y_min := y_min opts - step\<rparr>;
             opts = opts\<lparr>y_max := y_max opts + step\<rparr>
         in (opts, continue_looping))
      else if key_pressed = ''r'' then
        (reset_view opts, continue_looping)
      else if key_pressed \<in> set [''q'', escape_key] then
        (opts, False)
      else (opts, continue_looping))"

subsection \<open>Exceptions and printed lines\<close>

text \<open>
  The first three errors are the validation failures of the specification;
  \<open>IndexError\<close> is what Python raises when \<^verbatim>\<open>pixel_character_matrix[i]\<close> or
  \<^verbatim>\<open>y_axis_labels[i]\<close> is out of range.
\<close>

datatype error = ShapeMismatch | InvalidDimension | LabelCountMismatch | IndexError

text \<open>
  Every \<^verbatim>\<open>print\<close> of \<^verbatim>\<open>plot\<close>, and the call of
  \<^verbatim>\<open>elements.erase_previous_lines\<close>, is one event; the box-drawing characters of
  the borders are kept as the constructor, the computed parts as its arguments.
\<close>

datatype printed =
    Title string
  | Erase int
  | TopBorder int
  | Row "string list" string
  | BottomBorder int
  | XAxis string
  | Legend string
  | KeyHelp

text \<open>
  How a call of \<^verbatim>\<open>plot\<close> ends on a given finite sequence of keystrokes: it returns,
  it raises, or it has used up the keystrokes and is blocked in \<^verbatim>\<open>getch\<close>.
\<close>

datatype outcome = Returned | Raised error | Waiting

subsection \<open>Series and rendering collaborators\<close>

record multi_series =
  series_xs :: "real list list"
  series_ys :: "real list list"

text \<open>
  The functions of \<^verbatim>\<open>uniplot.plot_elements\<close> and \<^verbatim>\<open>uniplot.layer_assembly\<close> that
  \<^verbatim>\<open>plot\<close> calls are not part of the source at hand; they are parameters.
\<close>

record elements =
  plot_title :: "string \<Rightarrow> int \<Rightarrow> string"
  yaxis_ticks :: "real \<Rightarrow> real \<Rightarrow> int \<Rightarrow> string list"
  xaxis_ticks :: "real \<Rightarrow> real \<Rightarrow> int \<Rightarrow> string"
  legend :: "string list \<Rightarrow> int \<Rightarrow> string"
  assemble_scatter_plot :: "real list list \<Rightarrow> real list list \<Rightarrow> options \<Rightarrow> string list list"

subsection \<open>One frame (lines 38 to 69)\<close>

text \<open>
  The rows of \<^verbatim>\<open>for i in range(options.height)\<close>; an index out of range stops the
  loop with the rows printed so far.
\<close>

fun print_rows :: "string list list \<Rightarrow> string list \<Rightarrow> nat list \<Rightarrow> printed list \<times> error option" where
  "print_rows pixel_character_matrix y_axis_labels [] = ([], None)"
| "print_rows pixel_character_matrix y_axis_labels (i # rest) =
     (if i < length pixel_character_matrix \<and> i < length y_axis_labels then
        (let r = print_rows pixel_character_matrix y_axis_labels rest in
         (Row (pixel_character_matrix ! i) (y_axis_labels ! i) # fst r, snd r))
      else ([], Some IndexError))"

definition render_frame ::
  "elements \<Rightarrow> multi_series \<Rightarrow> options \<Rightarrow> int \<Rightarrow> printed list \<times> error option" where
  "render_frame E series opts loop_iteration =
     (let y_axis_labels = yaxis_ticks E (y_min opts) (y_max opts) (height opts);
          x_axis_labels = xaxis_ticks E (x_min opts) (x_max opts) (width opts);
          pixel_character_matrix =
            assemble_scatter_plot E (series_xs series) (series_ys series) opts;
          erased =
            (if loop_iteration > 0 then
               (let nr_lines_to_erase = height opts + 4;
                    nr_lines_to_erase =
                      (case legend_labels opts of
                         None \<Rightarrow> nr_lines_to_erase
                       | Some ls \<Rightarrow> nr_lines_to_erase + int (length ls))
                in [Erase nr_lines_to_erase])
             else []);
          rows = print_rows pixel_character_matrix y_axis_labels [0..<nat (height opts)]
      in case snd rows of
           Some e \<Rightarrow> (erased @ [TopBorder (width opts)] @ fst rows, Some e)
         | None \<Rightarrow>
             (erased @ [TopBorder (width opts)] @ fst rows
                @ [BottomBorder (width opts), XAxis x_axis_labels]
                @ (case legend_labels opts of
                     None \<Rightarrow> []
                   | Some ls \<Rightarrow> [Legend (legend E ls (width opts))]),
              None))"

subsection \<open>The main loop (lines 31 to 118)\<close>

text \<open>
  The loop is entered with \<^verbatim>\<open>continue_looping\<close> true. \<open>keys\<close> are the values that
  the successive calls of \<^verbatim>\<open>getch().lower()\<close> return; when they are used up the
  call is blocked in \<^verbatim>\<open>getch\<close>, which has no timeout.
\<close>

fun main_loop ::
  "elements \<Rightarrow> multi_series \<Rightarrow> string list \<Rightarrow> options \<Rightarrow> int \<Rightarrow> printed list \<times> outcome" where
  "main_loop E series [] opts loop_iteration =
     (let frame = render_frame E series opts loop_iteration in
      case snd frame of
        Some e \<Rightarrow> (fst frame, Raised e)
      | None \<Rightarrow>
          if interactive opts then (fst frame @ [KeyHelp], Waiting)
          else (fst frame, Returned))"
| "main_loop E series (key_pressed # keys) opts loop_iteration =
     (let continue_looping = (if \<not> interactive opts then False else True);
          frame = render_frame E series opts loop_iteration in
      case snd frame of
        Some e \<Rightarrow> (fst frame, Raised e)
      | None \<Rightarrow>
          if interactive opts then
            (let st = handle_key key_pressed (opts, continue_looping) in
             if snd st then
               (let r = main_loop E series keys (fst st) (loop_iteration + 1) in
                (fst frame @ [KeyHelp] @ fst r, snd r))
             else (fst frame @ [KeyHelp], Returned))
          else (fst frame, Returned))"

subsection \<open>Input normalisation and option validation\<close>

text \<open>The argument \<^verbatim>\<open>ys\<close> (and \<^verbatim>\<open>xs\<close>): a list, or a list of lists.\<close>

datatype coords = Flat "real list" | Nested "real list list"

fun as_series :: "coords \<Rightarrow> real list list" where
  "as_series (Flat vs) = [vs]"
| "as_series (Nested vss) = vss"

text \<open>
  Modelled from the spec: the class \<^verbatim>\<open>uniplot.multi_series.MultiSeries\<close> is missing
  from the source. Section 4.1 of the specification: one mandatory collection of
  y-values, flat or one sequence per series; an optional x collection; \<open>ShapeMismatch\<close>
  if both are supplied with differing series counts or differing per-series lengths;
  without \<^verbatim>\<open>xs\<close>, x is the 0-based index within each series.
\<close>

definition MultiSeries :: "coords option \<Rightarrow> coords \<Rightarrow> error + multi_series" where
  "MultiSeries xs ys =
     (let yss = as_series ys in
      case xs of
        None \<Rightarrow>
          Inr \<lparr>series_xs = map (\<lambda>s. map real [0..<length s]) yss, series_ys = yss\<rparr>
      | Some x \<Rightarrow>
          (let xss = as_series x in
           if length xss \<noteq> length yss \<or> map length xss \<noteq> map length yss
           then Inl ShapeMismatch
           else Inr \<lparr>series_xs = xss, series_ys = yss\<rparr>))"

text \<open>The keyword arguments of \<^verbatim>\<open>plot\<close>, each independently optional.\<close>

record kwargs =
  kw_width :: "int option"
  kw_height :: "int option"
  kw_x_min :: "real option"
  kw_x_max :: "real option"
  kw_y_min :: "real option"
  kw_y_max :: "real option"
  kw_lines :: "bool option"
  kw_color :: "bool option"
  kw_interactive :: "bool option"
  kw_title :: "string option"
  kw_legend_labels :: "string list option"

text \<open>
  Modelled from the spec: the default bounds of one axis, section 4.2: the minimum and
  maximum of the data on that axis, expanded by 1 on both sides when they coincide.
  The specification is silent on an axis without any data; the model takes 0 for both
  extremes there.
\<close>

fun data_range :: "real list \<Rightarrow> real \<times> real" where
  "data_range [] = (0, 0)"
| "data_range (v # vs) = (fold min vs v, fold max vs v)"

definition default_range :: "real list \<Rightarrow> real \<times> real" where
  "default_range vs =
     (let r = data_range vs in
      if fst r = snd r then (fst r - 1, snd r + 1) else r)"

definition or_default :: "'a option \<Rightarrow> 'a \<Rightarrow> 'a" where
  "or_default v d = (case v of None \<Rightarrow> d | Some a \<Rightarrow> a)"

text \<open>
  Modelled from the spec: \<^verbatim>\<open>uniplot.param_initializer.validate_and_transform_options\<close>
  is missing from the source. Section 4.2 of the specification: \<open>width\<close> defaults to 60,
  \<open>height\<close> to 17, the bounds to the default bounds of the data, \<open>lines\<close> and
  \<open>interactive\<close> to false, \<open>color\<close> to "more than one series"; \<open>InvalidDimension\<close> if
  width or height is not positive, \<open>LabelCountMismatch\<close> if the number of legend
  labels is not the number of series; the initial bounds are stored as the reset target.
\<close>

definition validate_and_transform_options :: "multi_series \<Rightarrow> kwargs \<Rightarrow> error + options" where
  "validate_and_transform_options series kwargs =
     (let w = or_default (kw_width kwargs) 60;
          h = or_default (kw_height kwargs) 17;
          xr = default_range (concat (series_xs series));
          yr = default_range (concat (series_ys series));
          x0 = or_default (kw_x_min kwargs) (fst xr);
          x1 = or_default (kw_x_max kwargs) (snd xr);
          y0 = or_default (kw_y_min kwargs) (fst yr);
          y1 = or_default (kw_y_max kwargs) (snd yr)
      in
      if w \<le> 0 \<or> h \<le> 0 then Inl InvalidDimension
      else if (case kw_legend_labels kwargs of
                 None \<Rightarrow> False
               | Some ls \<Rightarrow> length ls \<noteq> length (series_ys series))
      then Inl LabelCountMismatch
      else Inr \<lparr>x_min = x0, x_max = x1, y_min = y0, y_max = y1,
                width = w, height = h,
                lines = or_default (kw_lines kwargs) False,
                color = or_default (kw_color kwargs) (1 < length (series_ys series)),
                interactive = or_default (kw_interactive kwargs) False,
                title = kw_title kwargs,
                legend_labels = kw_legend_labels kwargs,
                initial_bounds = (x0, x1, y0, y1)\<rparr>)"

subsection \<open>The function \<open>plot\<close> (lines 11 to 118)\<close>

definition plot ::
  "elements \<Rightarrow> coords \<Rightarrow> coords option \<Rightarrow> kwargs \<Rightarrow> string list \<Rightarrow> printed list \<times> outcome" where
  "plot E ys xs kwargs keys =
     (case MultiSeries xs ys of
        Inl e \<Rightarrow> ([], Raised e)
      | Inr series \<Rightarrow>
          (case validate_and_transform_options series kwargs of
             Inl e \<Rightarrow> ([], Raised e)
           | Inr opts \<Rightarrow>
               (let heading =
                      (case title opts of
                         None \<Rightarrow> []
                       | Some t \<Rightarrow> [Title (plot_title E t (width opts))]);
                    r = main_loop E series keys opts 0
                in (heading @ fst r, snd r))))"

subsection \<open>Tick positions\<close>

text \<open>
  The powers of ten are searched from 1: upwards by factors of ten while the power is
  below \<open>r\<close>, downwards while the next lower power is still at least \<open>r\<close>.
\<close>

function pow10_up :: "real \<Rightarrow> real \<Rightarrow> real" where
  "pow10_up p r = (if 0 < p \<and> p < r then pow10_up (10 * p) r else p)"
  by pat_completeness auto
termination
proof (relation "measure (\<lambda>(p, r). nat \<lceil>r / p\<rceil>)")
  show "wf (measure (\<lambda>(p, r). nat \<lceil>r / p\<rceil>))" by simp
next
  fix p r :: real
  have tenth: "nat \<lceil>x / 10\<rceil> < nat \<lceil>x\<rceil>" if "1 < x" for x :: real
  proof -
    have c2: "2 \<le> \<lceil>x\<rceil>" using that by linarith
    then have r2: "(2::real) \<le> of_int \<lceil>x\<rceil>" by linarith
    have "x \<le> of_int \<lceil>x\<rceil>" by (rule le_of_int_ceiling)
    with r2 have "x / 10 \<le> of_int \<lceil>x\<rceil> - 1" by linarith
    then have "x / 10 \<le> of_int (\<lceil>x\<rceil> - 1)" by simp
    then have "\<lceil>x / 10\<rceil> \<le> \<lceil>x\<rceil> - 1" by (rule ceiling_le)
    then show ?thesis using c2 by linarith
  qed
  assume "0 < p \<and> p < r"
  then have "1 < r / p" by simp
  from tenth[OF this] have "nat \<lceil>r / p / 10\<rceil> < nat \<lceil>r / p\<rceil>" .
  moreover have "r / (10 * p) = r / p / 10" by simp
  ultimately have "nat \<lceil>r / (10 * p)\<rceil> < nat \<lceil>r / p\<rceil>" by (simp only:)
  then show "((10 * p, r), (p, r)) \<in> measure (\<lambda>(p, r). nat \<lceil>r / p\<rceil>)"
    by (simp only: in_measure split_conv)
qed

function pow10_down :: "real \<Rightarrow> real \<Rightarrow> real" where
  "pow10_down p r = (if 0 < r \<and> r \<le> p / 10 then pow10_down (p / 10) r else p)"
  by pat_completeness auto
termination
proof (relation "measure (\<lambda>(p, r). nat \<lceil>p / r\<rceil>)")
  show "wf (measure (\<lambda>(p, r). nat \<lceil>p / r\<rceil>))" by simp
next
  fix p r :: real
  have tenth: "nat \<lceil>x / 10\<rceil> < nat \<lceil>x\<rceil>" if "1 < x" for x :: real
  proof -
    have c2: "2 \<le> \<lceil>x\<rceil>" using that by linarith
    then have r2: "(2::real) \<le> of_int \<lceil>x\<rceil>" by linarith
    have "x \<le> of_int \<lceil>x\<rceil>" by (rule le_of_int_ceiling)
    with r2 have "x / 10 \<le> of_int \<lceil>x\<rceil> - 1" by linarith
    then have "x / 10 \<le> of_int (\<lceil>x\<rceil> - 1)" by simp
    then have "\<lceil>x / 10\<rceil> \<le> \<lceil>x\<rceil> - 1" by (rule ceiling_le)
    then show ?thesis using c2 by linarith
  qed
  assume "0 < r \<and> r \<le> p / 10"
  then have "10 \<le> p / r" by (simp add: pos_le_divide_eq)
  then have "1 < p / r" by linarith
  from tenth[OF this] have "nat \<lceil>p / r / 10\<rceil> < nat \<lceil>p / r\<rceil>" .
  moreover have "p / 10 / r = p / r / 10" by simp
  ultimately have "nat \<lceil>p / 10 / r\<rceil> < nat \<lceil>p / r\<rceil>" by (simp only:)
  then show "((p / 10, r), (p, r)) \<in> measure (\<lambda>(p, r). nat \<lceil>p / r\<rceil>)"
    by (simp only: in_measure split_conv)
qed

declare pow10_up.simps [simp del] pow10_down.simps [simp del]

text \<open>The least power of ten, with an integer exponent, that is at least \<open>r\<close> (for \<open>0 < r\<close>).\<close>

definition decade :: "real \<Rightarrow> real" where
  "decade r = (if 1 < r then pow10_up 1 r else pow10_down 1 r)"

text \<open>
  Modelled from the spec: the tick functions of \<^verbatim>\<open>uniplot.plot_elements\<close> are missing
  from the source. Section 4.3 of the specification: "compute raw_step = (range_max -
  range_min) / slot_count, then round raw_step up to the nearest value in {1, 2, 5} x
  10^k for integer k such that the rounded step is >= raw_step. Generate tick positions
  starting at the first multiple of step >= range_min, stepping by step, up to
  range_max." With \<open>d\<close> the least power of ten that is at least \<open>raw_step\<close>, the
  candidates above \<open>d / 10\<close> are \<open>2 * (d / 10)\<close>, \<open>5 * (d / 10)\<close> and \<open>d\<close>. The
  specification gives no step for an empty or inverted range or for a slot count that
  is not positive; the model has no ticks there.
\<close>

definition nice_step :: "real \<Rightarrow> real" where
  "nice_step raw_step =
     (let d = decade raw_step in
      if raw_step \<le> d / 5 then d / 5
      else if raw_step \<le> d / 2 then d / 2
      else d)"

definition tick_step :: "real \<Rightarrow> real \<Rightarrow> int \<Rightarrow> real option" where
  "tick_step range_min range_max slot_count =
     (if slot_count \<le> 0 \<or> range_max \<le> range_min then None
      else Some (nice_step ((range_max - range_min) / of_int slot_count)))"

definition tick_positions :: "real \<Rightarrow> real \<Rightarrow> int \<Rightarrow> real list option" where
  "tick_positions range_min range_max slot_count =
     (case tick_step range_min range_max slot_count of
        None \<Rightarrow> None
      | Some step \<Rightarrow>
          Some (map (\<lambda>i. of_int i * step) [\<lceil>range_min / step\<rceil> .. \<lfloor>range_max / step\<rfloor>]))"

text \<open>
  The specification's set of candidate steps, "{1, 2, 5} x 10^k for integer k";
  \<open>nice_step\<close> is compared with it below.
\<close>

definition nice_values :: "real set" where
  "nice_values = {m * 10 powi k | m k. m \<in> {1, 2, 5}}"

subsection \<open>The key handler on binary64 numbers\<close>

text \<open>
  A Python float is an IEEE 754 binary64 number: a finite value, an infinity or NaN. Its
  \<^verbatim>\<open>+\<close>, \<^verbatim>\<open>-\<close> and \<^verbatim>\<open>*\<close> compute the exact result and round it to the nearest
  binary64 number, ties to the even significand; they return an infinity on overflow and
  NaN for an undefined result, and raise no exception. The sign of zero is not modelled.
\<close>

datatype double = Finite real | PInf | NInf | NaN

text \<open>The nearest integer, a tie going to the even one.\<close>

definition round_half_even :: "real \<Rightarrow> int" where
  "round_half_even x =
     (let f = \<lfloor>x\<rfloor>; d = x - of_int f in
      if d < 1 / 2 then f
      else if 1 / 2 < d then f + 1
      else if even f then f else f + 1)"

text \<open>
  The greatest power of two that is at most \<open>r\<close>, searched from 1: upwards by doubling,
  downwards by halving.
\<close>

function pow2_up :: "real \<Rightarrow> real \<Rightarrow> real" where
  "pow2_up p r = (if 0 < p \<and> 2 * p \<le> r then pow2_up (2 * p) r else p)"
  by pat_completeness auto
termination
proof (relation "measure (\<lambda>(p, r). nat \<lceil>r / p\<rceil>)")
  show "wf (measure (\<lambda>(p, r). nat \<lceil>r / p\<rceil>))" by simp
next
  fix p r :: real
  have half: "nat \<lceil>x / 2\<rceil> < nat \<lceil>x\<rceil>" if "1 < x" for x :: real
  proof -
    have c2: "2 \<le> \<lceil>x\<rceil>" using that by linarith
    then have r2: "(2::real) \<le> of_int \<lceil>x\<rceil>" by linarith
    have "x \<le> of_int \<lceil>x\<rceil>" by (rule le_of_int_ceiling)
    with r2 have "x / 2 \<le> of_int \<lceil>x\<rceil> - 1" by linarith
    then have "x / 2 \<le> of_int (\<lceil>x\<rceil> - 1)" by simp
    then have "\<lceil>x / 2\<rceil> \<le> \<lceil>x\<rceil> - 1" by (rule ceiling_le)
    then show ?thesis using c2 by linarith
  qed
  assume "0 < p \<and> 2 * p \<le> r"
  then have "1 < r / p" by (simp add: pos_less_divide_eq)
  from half[OF this] have "nat \<lceil>r / p / 2\<rceil> < nat \<lceil>r / p\<rceil>" .
  moreover have "r / (2 * p) = r / p / 2" by simp
  ultimately have "nat \<lceil>r / (2 * p)\<rceil> < nat \<lceil>r / p\<rceil>" by (simp only:)
  then show "((2 * p, r), (p, r)) \<in> measure (\<lambda>(p, r). nat \<lceil>r / p\<rceil>)"
    by (simp only: in_measure split_conv)
qed

function pow2_down :: "real \<Rightarrow> real \<Rightarrow> real" where
  "pow2_down p r = (if 0 < r \<and> r < p then pow2_down (p / 2) r else p)"
  by pat_completeness auto
termination
proof (relation "measure (\<lambda>(p, r). nat \<lceil>p / r\<rceil>)")
  show "wf (measure (\<lambda>(p, r). nat \<lceil>p / r\<rceil>))" by simp
next
  fix p r :: real
  have half: "nat \<lceil>x / 2\<rceil> < nat \<lceil>x\<rceil>" if "1 < x" for x :: real
  proof -
    have c2: "2 \<le> \<lceil>x\<rceil>" using that by linarith
    then have r2: "(2::real) \<le> of_int \<lceil>x\<rceil>" by linarith
    have "x \<le> of_int \<lceil>x\<rceil>" by (rule le_of_int_ceiling)
    with r2 have "x / 2 \<le> of_int \<lceil>x\<rceil> - 1" by linarith
    then have "x / 2 \<le> of_int (\<lceil>x\<rceil> - 1)" by simp
    then have "\<lceil>x / 2\<rceil> \<le> \<lceil>x\<rceil> - 1" by (rule ceiling_le)
    then show ?thesis using c2 by linarith
  qed
  assume "0 < r \<and> r < p"
  then have "1 < p / r" by simp
  from half[OF this] have "nat \<lceil>p / r / 2\<rceil> < nat \<lceil>p / r\<rceil>" .
  moreover have "p / 2 / r = p / r / 2" by simp
  ultimately have "nat \<lceil>p / 2 / r\<rceil> < nat \<lceil>p / r\<rceil>" by (simp only:)
  then show "((p / 2, r), (p, r)) \<in> measure (\<lambda>(p, r). nat \<lceil>p / r\<rceil>)"
    by (simp only: in_measure split_conv)
qed

declare pow2_up.simps [simp del] pow2_down.simps [simp del]

definition binade :: "real \<Rightarrow> real" where
  "binade r = (if 1 \<le> r then pow2_up 1 r else pow2_down 1 r)"

text \<open>
  The binary64 numbers of the binade \<open>[2^e, 2^(e+1))\<close> are the multiples of
  \<open>2^(e-52)\<close>; below the least normal number \<open>2^(-1022)\<close> the spacing stays
  \<open>2^(-1074)\<close>. A result that is, before or after rounding, \<open>2^1024\<close> or more in
  magnitude overflows.
\<close>

definition min_normal :: real where
  "min_normal = 1 / 2 ^ 1022"

definition overflow_threshold :: real where
  "overflow_threshold = 2 ^ 1024"

definition quantum :: "real \<Rightarrow> real" where
  "quantum x = max (binade \<bar>x\<bar>) min_normal / 2 ^ 52"

definition overflow :: "real \<Rightarrow> double" where
  "overflow x = (if 0 < x then PInf else NInf)"

definition round_double :: "real \<Rightarrow> double" where
  "round_double x =
     (if x = 0 then Finite 0
      else if overflow_threshold \<le> \<bar>x\<bar> then overflow x
      else
        (let y = of_int (round_half_even (x / quantum x)) * quantum x
         in if overflow_threshold \<le> \<bar>y\<bar> then overflow x else Finite y))"

text \<open>Negation, addition, subtraction and multiplication of binary64 numbers.\<close>

fun dneg :: "double \<Rightarrow> double" where
  "dneg (Finite a) = Finite (- a)"
| "dneg PInf = NInf"
| "dneg NInf = PInf"
| "dneg NaN = NaN"

fun dadd :: "double \<Rightarrow> double \<Rightarrow> double" where
  "dadd (Finite a) (Finite b) = round_double (a + b)"
| "dadd NaN b = NaN"
| "dadd a NaN = NaN"
| "dadd PInf NInf = NaN"
| "dadd NInf PInf = NaN"
| "dadd PInf b = PInf"
| "dadd NInf b = NInf"
| "dadd a PInf = PInf"
| "dadd a NInf = NInf"

definition dsub :: "double \<Rightarrow> double \<Rightarrow> double" where
  "dsub a b = dadd a (dneg b)"

fun dinf :: "bool \<Rightarrow> double" where
  "dinf True = PInf"
| "dinf False = NInf"

fun dmul :: "double \<Rightarrow> double \<Rightarrow> double" where
  "dmul (Finite a) (Finite b) = round_double (a * b)"
| "dmul NaN b = NaN"
| "dmul a NaN = NaN"
| "dmul (Finite a) PInf = (if a = 0 then NaN else dinf (0 < a))"
| "dmul (Finite a) NInf = (if a = 0 then NaN else dinf (a < 0))"
| "dmul PInf (Finite b) = (if b = 0 then NaN else dinf (0 < b))"
| "dmul NInf (Finite b) = (if b = 0 then NaN else dinf (b < 0))"
| "dmul PInf PInf = PInf"
| "dmul PInf NInf = NInf"
| "dmul NInf PInf = NInf"
| "dmul NInf NInf = PInf"

text \<open>The literal \<^verbatim>\<open>0.1\<close>.\<close>

definition tenth :: double where
  "tenth = round_double (1 / 10)"

text \<open>
  The bounds as binary64 numbers, with the reset target, and lines 76 to 116 on them:
  the branches of \<open>handle_key\<close> with the operations of binary64.
\<close>

record double_options =
  dx_min :: double
  dx_max :: double
  dy_min :: double
  dy_max :: double
  d_initial_bounds :: "double \<times> double \<times> double \<times> double"

text \<open>
  Modelled from the spec: \<^verbatim>\<open>Options.reset_view\<close> is missing from the source; as in
  \<open>reset_view\<close>, the bounds become the reset target.
\<close>

definition reset_view_double :: "double_options \<Rightarrow> double_options" where
  "reset_view_double opts =
     (case d_initial_bounds opts of
        (x0, x1, y0, y1) \<Rightarrow> opts\<lparr>dx_min := x0, dx_max := x1, dy_min := y0, dy_max := y1\<rparr>)"

definition handle_key_double ::
  "string \<Rightarrow> double_options \<times> bool \<Rightarrow> double_options \<times> bool" where
  "handle_key_double key_pressed st =
     (let opts = fst st; continue_looping = snd st in
      if key_pressed = ''h'' then
        (let step = dmul tenth (dsub (dx_max opts) (dx_min opts));
             opts = opts\<lparr>dx_min := dsub (dx_min opts) step\<rparr>;
             opts = opts\<lparr>dx_max := dsub (dx_max opts) step\<rparr>
         in (opts, continue_looping))
      else if key_pressed = ''l'' then
        (let step = dmul tenth (dsub (dx_max opts) (dx_min opts));
             opts = opts\<lparr>dx_min := dadd (dx_min opts) step\<rparr>;
             opts = opts\<lparr>dx_max := dadd (dx_max opts) step\<rparr>
         in (opts, continue_looping))
      else if key_pressed = ''j'' then
        (let step = dmul tenth (dsub (dy_max opts) (dy_min opts));
             opts = opts\<lparr>dy_min := dsub (dy_min opts) step\<rparr>;
             opts = opts\<lparr>dy_max := dsub (dy_max opts) step\<rparr>
         in (opts, continue_looping))
      else if key_pressed = ''k'' then
        (let step = dmul tenth (dsub (dy_max opts) (dy_min opts));
             opts = opts\<lparr>dy_min := dadd (dy_min opts) step\<rparr>;
             opts = opts\<lparr>dy_max := dadd (dy_max opts) step\<rparr>
         in (opts, continue_looping))
      else if key_pressed = ''u'' then
        (let step = dmul tenth (dsub (dx_max opts) (dx_min opts));
             opts = opts\<lparr>dx_min := dadd (dx_min opts) step\<rparr>;
             opts = opts\<lparr>dx_max := dsub (dx_max opts) step\<rparr>;
             step = dmul tenth (dsub (dy_max opts) (dy_min opts));
             opts = opts\<lparr>dy_min := dadd (dy_min opts) step\<rparr>;
             opts = opts\<lparr>dy_max := dsub (dy_max opts) step\<rparr>
         in (opts, continue_looping))
      else if key_pressed = ''n'' then
        (let step = dmul tenth (dsub (dx_max opts) (dx_min opts));
             opts = opts\<lparr>dx_min := dsub (dx_min opts) step\<rparr>;
             opts = opts\<lparr>dx_max := dadd (dx_max opts) step\<rparr>;
             step = dmul tenth (dsub (dy_max opts) (dy_min opts));
             opts = opts\<lparr>dy_min := dsub (dy_min opts) step\<rparr>;
             opts = opts\<lparr>dy_max := dadd (dy_max opts) step\<rparr>
         in (opts, continue_looping))
      else if key_pressed = ''r'' then
        (reset_view_double opts, continue_looping)
      else if key_pressed \<in> set [''q'', escape_key] then
        (opts, False)
      else (opts, continue_looping))"

subsection \<open>Sessions and the predicates of the statements\<close>

text \<open>The invariant of Bounds: both ranges are strictly increasing.\<close>

definition ordered :: "real \<times> real \<times> real \<times> real \<Rightarrow> bool" where
  "ordered b = (case b of (x0, x1, y0, y1) \<Rightarrow> x0 < x1 \<and> y0 < y1)"

text \<open>
  The options and \<^verbatim>\<open>continue_looping\<close> after the iterations of the \<^verbatim>\<open>while\<close>
  loop that read the given keys: the loop body runs while \<^verbatim>\<open>continue_looping\<close>
  holds. A session starts with the reset target equal to the bounds.
\<close>

fun key_loop :: "string list \<Rightarrow> options \<times> bool \<Rightarrow> options \<times> bool" where
  "key_loop [] st = st"
| "key_loop (key_pressed # keys) st =
     (if snd st then key_loop keys (handle_key key_pressed st) else st)"

text \<open>Each range of the bounds is increasing exactly if that of the reset target is.\<close>

definition same_orientation :: "options \<Rightarrow> bool" where
  "same_orientation opts =
     (case initial_bounds opts of
        (x0, x1, y0, y1) \<Rightarrow>
          (x_min opts < x_max opts) = (x0 < x1) \<and> (y_min opts < y_max opts) = (y0 < y1))"

text \<open>
  The contract of the two collaborators that \<^verbatim>\<open>plot\<close> indexes by row: the matrix
  and the y axis labels have a row for each of the \<^verbatim>\<open>height\<close> lines.
\<close>

definition one_row_per_line :: "elements \<Rightarrow> multi_series \<Rightarrow> bool" where
  "one_row_per_line E series =
     (\<forall>opts. nat (height opts)
                \<le> length (assemble_scatter_plot E (series_xs series) (series_ys series) opts)
            \<and> nat (height opts)
                \<le> length (yaxis_ticks E (y_min opts) (y_max opts) (height opts)))"

section \<open>Properties\<close>

subsection \<open>The key handler, branch by branch\<close>

lemma handle_key_h:
  "handle_key ''h'' (opts, c) =
     (opts\<lparr>x_min := x_min opts - 0.1 * (x_max opts - x_min opts),
           x_max := x_max opts - 0.1 * (x_max opts - x_min opts)\<rparr>, c)"
  by (simp add: handle_key_def Let_def)

lemma handle_key_l:
  "handle_key ''l'' (opts, c) =
     (opts\<lparr>x_min := x_min opts + 0.1 * (x_max opts - x_min opts),
           x_max := x_max opts + 0.1 * (x_max opts - x_min opts)\<rparr>, c)"
  by (simp add: handle_key_def Let_def)

lemma handle_key_j:
  "handle_key ''j'' (opts, c) =
     (opts\<lparr>y_min := y_min opts - 0.1 * (y_max opts - y_min opts),
           y_max := y_max opts - 0.1 * (y_max opts - y_min opts)\<rparr>, c)"
  by (simp add: handle_key_def Let_def)

lemma handle_key_k:
  "handle_key ''k'' (opts, c) =
     (opts\<lparr>y_min := y_min opts + 0.1 * (y_max opts - y_min opts),
           y_max := y_max opts + 0.1 * (y_max opts - y_min opts)\<rparr>, c)"
  by (simp add: handle_key_def Let_def)

lemma handle_key_u:
  "handle_key ''u'' (opts, c) =
     (opts\<lparr>x_min := x_min opts + 0.1 * (x_max opts - x_min opts),
           x_max := x_max opts - 0.1 * (x_max opts - x_min opts),
           y_min := y_min opts + 0.1 * (y_max opts - y_min opts),
           y_max := y_max opts - 0.1 * (y_max opts - y_min opts)\<rparr>, c)"
  by (simp add: handle_key_def Let_def)

lemma handle_key_n:
  "handle_key ''n'' (opts, c) =
     (opts\<lparr>x_min := x_min opts - 0.1 * (x_max opts - x_min opts),
           x_max := x_max opts + 0.1 * (x_max opts - x_min opts),
           y_min := y_min opts - 0.1 * (y_max opts - y_min opts),
           y_max := y_max opts + 0.1 * (y_max opts - y_min opts)\<rparr>, c)"
  by (simp add: handle_key_def Let_def)

lemma handle_key_r: "handle_key ''r'' (opts, c) = (reset_view opts, c)"
  by (simp add: handle_key_def Let_def)

lemma handle_key_quit:
  "key_pressed = ''q'' \<or> key_pressed = escape_key \<Longrightarrow> handle_key key_pressed (opts, c) = (opts, False)"
  by (auto simp add: handle_key_def Let_def escape_key_def)

lemma handle_key_other:
  "key_pressed \<notin> {''h'', ''j'', ''k'', ''l'', ''u'', ''n'', ''r'', ''q'', escape_key} \<Longrightarrow>
     handle_key key_pressed (opts, c) = (opts, c)"
  by (simp add: handle_key_def Let_def)

text \<open>Every string is one of the nine recognised keys or none of them.\<close>

lemma key_cases:
  obtains "key_pressed = ''h''" | "key_pressed = ''l''" | "key_pressed = ''j''"
  | "key_pressed = ''k''" | "key_pressed = ''u''" | "key_pressed = ''n''"
  | "key_pressed = ''r''" | "key_pressed = ''q'' \<or> key_pressed = escape_key"
  | "key_pressed \<notin> {''h'', ''j'', ''k'', ''l'', ''u'', ''n'', ''r'', ''q'', escape_key}"
  by auto

lemma handle_key_continue:
  "snd (handle_key key_pressed (opts, c)) = (c \<and> key_pressed \<noteq> ''q'' \<and> key_pressed \<noteq> escape_key)"
  by (cases key_pressed rule: key_cases)
     (auto simp add: handle_key_h handle_key_l handle_key_j handle_key_k handle_key_u
        handle_key_n handle_key_r handle_key_quit handle_key_other escape_key_def)

lemma handle_key_fixed:
  "width (fst (handle_key key_pressed (opts, c))) = width opts"
  "height (fst (handle_key key_pressed (opts, c))) = height opts"
  "interactive (fst (handle_key key_pressed (opts, c))) = interactive opts"
  "legend_labels (fst (handle_key key_pressed (opts, c))) = legend_labels opts"
  "initial_bounds (fst (handle_key key_pressed (opts, c))) = initial_bounds opts"
  by (cases key_pressed rule: key_cases;
      simp add: handle_key_h handle_key_l handle_key_j handle_key_k handle_key_u
        handle_key_n handle_key_r handle_key_quit handle_key_other reset_view_def
        split: prod.splits)+



subsection \<open>Pan and zoom\<close>

text \<open>
  C1: for every current Bounds, each pan transition shifts both endpoints of exactly one
  axis by 0.1 times that axis's current extent, read from the options at the moment of
  the transition: \<open>h\<close> (left) subtracts \<open>0.1 * (x_max - x_min)\<close> from \<open>x_min\<close> and
  \<open>x_max\<close>, \<open>l\<close> (right) adds it to both, \<open>j\<close> (up) subtracts
  \<open>0.1 * (y_max - y_min)\<close> from \<open>y_min\<close> and \<open>y_max\<close>, \<open>k\<close> (down) adds it to both;
  every other field of the options is as before.
\<close>

theorem pan_shifts_one_axis:
  "handle_key ''h'' (opts, c) =
     (opts\<lparr>x_min := x_min opts - 0.1 * (x_max opts - x_min opts),
           x_max := x_max opts - 0.1 * (x_max opts - x_min opts)\<rparr>, c)
   \<and> handle_key ''l'' (opts, c) =
     (opts\<lparr>x_min := x_min opts + 0.1 * (x_max opts - x_min opts),
           x_max := x_max opts + 0.1 * (x_max opts - x_min opts)\<rparr>, c)
   \<and> handle_key ''j'' (opts, c) =
     (opts\<lparr>y_min := y_min opts - 0.1 * (y_max opts - y_min opts),
           y_max := y_max opts - 0.1 * (y_max opts - y_min opts)\<rparr>, c)
   \<and> handle_key ''k'' (opts, c) =
     (opts\<lparr>y_min := y_min opts + 0.1 * (y_max opts - y_min opts),
           y_max := y_max opts + 0.1 * (y_max opts - y_min opts)\<rparr>, c)"
  by (simp only: handle_key_h handle_key_l handle_key_j handle_key_k simp_thms)

text \<open>
  C2: for every current Bounds, zoom-in (\<open>u\<close>) adds 0.1 of the x extent to \<open>x_min\<close>
  and subtracts it from \<open>x_max\<close>, and adds 0.1 of the y extent to \<open>y_min\<close> and
  subtracts it from \<open>y_max\<close>, each delta read from the Bounds before the transition;
  zoom-out (\<open>n\<close>) does the same with all signs inverted.
\<close>

theorem zoom_updates:
  "handle_key ''u'' (opts, c) =
     (opts\<lparr>x_min := x_min opts + 0.1 * (x_max opts - x_min opts),
           x_max := x_max opts - 0.1 * (x_max opts - x_min opts),
           y_min := y_min opts + 0.1 * (y_max opts - y_min opts),
           y_max := y_max opts - 0.1 * (y_max opts - y_min opts)\<rparr>, c)
   \<and> handle_key ''n'' (opts, c) =
     (opts\<lparr>x_min := x_min opts - 0.1 * (x_max opts - x_min opts),
           x_max := x_max opts + 0.1 * (x_max opts - x_min opts),
           y_min := y_min opts - 0.1 * (y_max opts - y_min opts),
           y_max := y_max opts + 0.1 * (y_max opts - y_min opts)\<rparr>, c)"
  by (simp only: handle_key_u handle_key_n simp_thms)

subsection \<open>The ordering of the bounds\<close>

lemma handle_key_ordered:
  assumes "ordered (bounds opts)" and "ordered (initial_bounds opts)"
  shows "ordered (bounds (fst (handle_key key_pressed (opts, c))))"
proof (cases key_pressed rule: key_cases)
  case 5
  have "x_min opts < x_max opts" "y_min opts < y_max opts"
    using assms(1) by (simp_all add: bounds_def ordered_def)
  then have "x_min opts + 0.1 * (x_max opts - x_min opts)
               < x_max opts - 0.1 * (x_max opts - x_min opts)"
    and "y_min opts + 0.1 * (y_max opts - y_min opts)
               < y_max opts - 0.1 * (y_max opts - y_min opts)"
    by (simp_all add: field_simps)
  with 5 show ?thesis by (simp add: handle_key_u bounds_def ordered_def)
next
  case 6
  have "x_min opts < x_max opts" "y_min opts < y_max opts"
    using assms(1) by (simp_all add: bounds_def ordered_def)
  then have "x_min opts - 0.1 * (x_max opts - x_min opts)
               < x_max opts + 0.1 * (x_max opts - x_min opts)"
    and "y_min opts - 0.1 * (y_max opts - y_min opts)
               < y_max opts + 0.1 * (y_max opts - y_min opts)"
    by (simp_all add: field_simps)
  with 6 show ?thesis by (simp add: handle_key_n bounds_def ordered_def)
next
  case 7
  with assms(2) show ?thesis
    by (simp add: handle_key_r reset_view_def bounds_def ordered_def split: prod.splits)
qed (use assms(1) in \<open>simp_all add: handle_key_h handle_key_l handle_key_j handle_key_k
       handle_key_quit handle_key_other bounds_def ordered_def\<close>)

lemma zoom_in_order:
  fixes a b :: real
  shows "(a + 0.1 * (b - a) < b - 0.1 * (b - a)) = (a < b)"
  by (auto simp add: field_simps)

lemma zoom_out_order:
  fixes a b :: real
  shows "(a - 0.1 * (b - a) < b + 0.1 * (b - a)) = (a < b)"
  by (auto simp add: field_simps)

lemma handle_key_same_orientation:
  assumes "same_orientation opts"
  shows "same_orientation (fst (handle_key key_pressed (opts, c)))"
proof (cases key_pressed rule: key_cases)
  case 5
  obtain x0 x1 y0 y1 where ib: "initial_bounds opts = (x0, x1, y0, y1)"
    by (cases "initial_bounds opts")
  with assms have "(x_min opts < x_max opts) = (x0 < x1)" "(y_min opts < y_max opts) = (y0 < y1)"
    by (simp_all add: same_orientation_def)
  then have "(x_min opts + 0.1 * (x_max opts - x_min opts)
               < x_max opts - 0.1 * (x_max opts - x_min opts)) = (x0 < x1)"
    and "(y_min opts + 0.1 * (y_max opts - y_min opts)
               < y_max opts - 0.1 * (y_max opts - y_min opts)) = (y0 < y1)"
    by (simp_all only: zoom_in_order)
  with 5 ib show ?thesis
    by (simp add: handle_key_u same_orientation_def)
next
  case 6
  obtain x0 x1 y0 y1 where ib: "initial_bounds opts = (x0, x1, y0, y1)"
    by (cases "initial_bounds opts")
  with assms have "(x_min opts < x_max opts) = (x0 < x1)" "(y_min opts < y_max opts) = (y0 < y1)"
    by (simp_all add: same_orientation_def)
  then have "(x_min opts - 0.1 * (x_max opts - x_min opts)
               < x_max opts + 0.1 * (x_max opts - x_min opts)) = (x0 < x1)"
    and "(y_min opts - 0.1 * (y_max opts - y_min opts)
               < y_max opts + 0.1 * (y_max opts - y_min opts)) = (y0 < y1)"
    by (simp_all only: zoom_out_order)
  with 6 ib show ?thesis
    by (simp add: handle_key_n same_orientation_def)
next
  case 7
  then show ?thesis
    by (simp add: handle_key_r reset_view_def same_orientation_def split: prod.splits)
qed (use assms in \<open>simp_all add: handle_key_h handle_key_l handle_key_j handle_key_k
       handle_key_quit handle_key_other same_orientation_def
       split: prod.splits\<close>)

lemma key_loop_same_orientation:
  "same_orientation (fst st) \<Longrightarrow> same_orientation (fst (key_loop keys st))"
proof (induction keys arbitrary: st)
  case Nil
  then show ?case by simp
next
  case (Cons k keys)
  obtain opts c where st: "st = (opts, c)" by (cases st)
  with Cons.prems have "same_orientation (fst (handle_key k st))"
    by (simp add: handle_key_same_orientation)
  then show ?case using Cons.IH Cons.prems by simp
qed

lemma session_reset_target_ordered:
  assumes "initial_bounds opts0 = bounds opts0"
    and "key_loop keys (opts0, True) = (opts, c)"
    and "ordered (bounds opts)"
  shows "ordered (initial_bounds opts)"
proof -
  have "same_orientation opts0"
    using assms(1) by (simp add: same_orientation_def bounds_def)
  then have "same_orientation (fst (key_loop keys (opts0, True)))"
    by (simp add: key_loop_same_orientation)
  then have "same_orientation opts" using assms(2) by simp
  with assms(3) show ?thesis
    by (auto simp add: same_orientation_def ordered_def bounds_def split: prod.splits)
qed

text \<open>
  C3: in exact arithmetic every keystroke transition preserves the invariant
  \<open>x_min < x_max\<close> and \<open>y_min < y_max\<close>. The statement ranges over the states of a
  session: the options \<open>opts\<close> reached from a start with the reset target equal to the
  bounds, by any keys. Whenever their bounds are ordered, so are the bounds after the
  next key, whichever it is: a pan, a zoom, reset, quit or any other string.
\<close>

theorem transitions_preserve_ordering:
  assumes "initial_bounds opts0 = bounds opts0"
    and "key_loop keys (opts0, True) = (opts, c)"
    and "ordered (bounds opts)"
  shows "ordered (bounds (fst (handle_key key_pressed (opts, c))))"
  using assms by (blast intro: handle_key_ordered session_reset_target_ordered)

theorem transitions_preserve_ordering_witness:
  "initial_bounds \<lparr>x_min = 0, x_max = 100, y_min = 0, y_max = 50, width = 20, height = 4,
       lines = False, color = False, interactive = True, title = None,
       legend_labels = None, initial_bounds = (0, 100, 0, 50)\<rparr>
     = bounds \<lparr>x_min = 0, x_max = 100, y_min = 0, y_max = 50, width = 20, height = 4,
       lines = False, color = False, interactive = True, title = None,
       legend_labels = None, initial_bounds = (0, 100, 0, 50)\<rparr>
   \<and> key_loop [''u'', ''h'']
        (\<lparr>x_min = 0, x_max = 100, y_min = 0, y_max = 50, width = 20, height = 4,
          lines = False, color = False, interactive = True, title = None,
          legend_labels = None, initial_bounds = (0, 100, 0, 50)\<rparr>, True)
     = (\<lparr>x_min = 2, x_max = 82, y_min = 5, y_max = 45, width = 20, height = 4,
          lines = False, color = False, interactive = True, title = None,
          legend_labels = None, initial_bounds = (0, 100, 0, 50)\<rparr>, True)
   \<and> ordered (bounds \<lparr>x_min = 2, x_max = 82, y_min = 5, y_max = 45, width = 20,
          height = 4, lines = False, color = False, interactive = True, title = None,
          legend_labels = None, initial_bounds = (0, 100, 0, 50)\<rparr>)
   \<and> ordered (bounds (fst (handle_key ''r''
          (\<lparr>x_min = 2, x_max = 82, y_min = 5, y_max = 45, width = 20, height = 4,
            lines = False, color = False, interactive = True, title = None,
            legend_labels = None, initial_bounds = (0, 100, 0, 50)\<rparr>, True))))"
proof -
  let ?start = "\<lparr>x_min = 0, x_max = 100, y_min = 0, y_max = 50, width = 20, height = 4,
       lines = False, color = False, interactive = True, title = None,
       legend_labels = None, initial_bounds = (0, 100, 0, 50)\<rparr>"
  let ?now = "\<lparr>x_min = 2, x_max = 82, y_min = 5, y_max = 45, width = 20, height = 4,
       lines = False, color = False, interactive = True, title = None,
       legend_labels = None, initial_bounds = (0, 100, 0, 50)\<rparr>"
  have h1: "initial_bounds ?start = bounds ?start" by (simp add: bounds_def)
  have h2: "key_loop [''u'', ''h''] (?start, True) = (?now, True)"
    by (simp add: handle_key_def Let_def)
  have h3: "ordered (bounds ?now)" by (simp add: bounds_def ordered_def)
  from transitions_preserve_ordering[OF h1 h2 h3, of "''r''"] h1 h2 h3
  show ?thesis by simp
qed

subsection \<open>Binary64 rounding\<close>

text \<open>
  The search gives the binade of its argument, a power of two, and \<open>round_double\<close>
  is within half a quantum of the exact value.
\<close>

lemma round_half_even_near: "\<bar>of_int (round_half_even x) - x\<bar> \<le> 1 / 2"
proof -
  have "of_int \<lfloor>x\<rfloor> \<le> x" "x < of_int \<lfloor>x\<rfloor> + 1" by linarith+
  then show ?thesis by (auto simp add: round_half_even_def Let_def)
qed

lemma pow2_up_bounds:
  "0 < p \<Longrightarrow> p \<le> r \<Longrightarrow> pow2_up p r \<le> r \<and> r < 2 * pow2_up p r"
proof (induction p r rule: pow2_up.induct)
  case (1 p r)
  show ?case
  proof (cases "2 * p \<le> r")
    case True
    with "1.prems" have eq: "pow2_up p r = pow2_up (2 * p) r"
      by (subst pow2_up.simps) simp
    from "1.IH" "1.prems" True show ?thesis by (simp only: eq)
  next
    case False
    then have "pow2_up p r = p" by (subst pow2_up.simps) simp
    with False "1.prems" show ?thesis by simp
  qed
qed

lemma pow2_down_bounds:
  "0 < r \<Longrightarrow> r < 2 * p \<Longrightarrow> pow2_down p r \<le> r \<and> r < 2 * pow2_down p r"
proof (induction p r rule: pow2_down.induct)
  case (1 p r)
  show ?case
  proof (cases "r < p")
    case True
    with "1.prems" have eq: "pow2_down p r = pow2_down (p / 2) r"
      by (subst pow2_down.simps) simp
    from "1.IH" "1.prems" True show ?thesis by (simp only: eq)
  next
    case False
    then have "pow2_down p r = p" by (subst pow2_down.simps) simp
    with False "1.prems" show ?thesis by simp
  qed
qed

lemma binade_bounds:
  assumes "0 < r"
  shows "binade r \<le> r \<and> r < 2 * binade r"
proof (cases "1 \<le> r")
  case True
  then show ?thesis using pow2_up_bounds[of 1 r] by (simp add: binade_def)
next
  case False
  then show ?thesis using pow2_down_bounds[of r 1] assms by (simp add: binade_def)
qed

lemma pow2_up_power: "0 < p \<Longrightarrow> \<exists>n::nat. pow2_up p r = p * 2 ^ n"
proof (induction p r rule: pow2_up.induct)
  case (1 p r)
  show ?case
  proof (cases "2 * p \<le> r")
    case True
    with "1.prems" have eq: "pow2_up p r = pow2_up (2 * p) r"
      by (subst pow2_up.simps) simp
    from "1.IH" "1.prems" True obtain n :: nat where "pow2_up (2 * p) r = 2 * p * 2 ^ n"
      by auto
    then have "pow2_up p r = p * 2 ^ Suc n" by (simp add: eq)
    then show ?thesis by blast
  next
    case False
    then have "pow2_up p r = p * 2 ^ 0" by (subst pow2_up.simps) simp
    then show ?thesis by blast
  qed
qed

lemma pow2_down_power: "\<exists>n::nat. pow2_down p r = p / 2 ^ n"
proof (induction p r rule: pow2_down.induct)
  case (1 p r)
  show ?case
  proof (cases "0 < r \<and> r < p")
    case True
    then have eq: "pow2_down p r = pow2_down (p / 2) r"
      by (subst pow2_down.simps) simp
    from "1.IH" True obtain n :: nat where "pow2_down (p / 2) r = p / 2 / 2 ^ n"
      by auto
    then have "pow2_down p r = p / 2 ^ Suc n" by (simp add: eq)
    then show ?thesis by blast
  next
    case False
    then have "pow2_down p r = p / 2 ^ 0" by (subst pow2_down.simps) auto
    then show ?thesis by blast
  qed
qed

lemma binade_power: "\<exists>k::int. binade r = 2 powi k"
proof (cases "1 \<le> r")
  case True
  obtain n :: nat where "pow2_up 1 r = 1 * 2 ^ n"
    using pow2_up_power[of 1 r] by auto
  with True have "binade r = 2 powi int n" by (simp add: binade_def)
  then show ?thesis by blast
next
  case False
  obtain n :: nat where "pow2_down 1 r = 1 / 2 ^ n"
    using pow2_down_power[of 1 r] by auto
  with False have "binade r = 2 powi (- int n)"
    by (simp add: binade_def power_int_minus_divide)
  then show ?thesis by blast
qed

lemma quantum_pos: "0 < quantum x"
proof -
  have "0 < min_normal" by (simp add: min_normal_def)
  then show ?thesis by (simp add: quantum_def less_max_iff_disj)
qed

lemma round_double_near:
  assumes "round_double x = Finite y"
  shows "\<bar>y - x\<bar> \<le> quantum x / 2"
proof (cases "x = 0")
  case True
  with assms have "y = 0" by (simp add: round_double_def)
  with True quantum_pos[of 0] show ?thesis by simp
next
  case False
  let ?n = "round_half_even (x / quantum x)"
  from assms False have y: "y = of_int ?n * quantum x"
    by (simp add: round_double_def Let_def overflow_def split: if_splits)
  have q: "0 < quantum x" by (rule quantum_pos)
  have "\<bar>of_int ?n - x / quantum x\<bar> \<le> 1 / 2" by (rule round_half_even_near)
  then have "\<bar>of_int ?n - x / quantum x\<bar> * quantum x \<le> 1 / 2 * quantum x"
    using q by (intro mult_right_mono) simp_all
  moreover have "\<bar>of_int ?n - x / quantum x\<bar> * quantum x = \<bar>y - x\<bar>"
  proof -
    have "\<bar>of_int ?n - x / quantum x\<bar> * quantum x
            = \<bar>(of_int ?n - x / quantum x) * quantum x\<bar>"
      using q by (simp only: abs_mult abs_of_pos)
    also have "(of_int ?n - x / quantum x) * quantum x = y - x"
      using q by (simp add: y left_diff_distrib)
    finally show ?thesis .
  qed
  ultimately show ?thesis by simp
qed

text \<open>The literal \<^verbatim>\<open>0.1\<close> is the binary64 number \<open>3602879701896397 / 2^55\<close>.\<close>

lemma tenth_value: "tenth = Finite (3602879701896397 / 36028797018963968)"
  by (simp add: tenth_def round_double_def quantum_def min_normal_def overflow_threshold_def
        binade_def pow2_down.simps round_half_even_def Let_def)

lemmas double_eval =
  handle_key_double_def Let_def dsub_def tenth_value round_double_def quantum_def
  min_normal_def overflow_threshold_def overflow_def binade_def
  pow2_up.simps pow2_down.simps round_half_even_def

subsection \<open>Round trips\<close>



text \<open>
  From the x range (1, 5) the same round trip ends one rounding step below the start, at
  \<open>x_min = 1 - 2^(-53)\<close>, which prints as 0.9999999999999999.
\<close>

lemma pan_round_trip_double_one_five:
  "handle_key_double ''h'' (handle_key_double ''l''
      (\<lparr>dx_min = Finite 1, dx_max = Finite 5, dy_min = Finite 0, dy_max = Finite 1,
        d_initial_bounds = (Finite 1, Finite 5, Finite 0, Finite 1)\<rparr>, True))
   = (\<lparr>dx_min = Finite (1 - 1 / 2 ^ 53), dx_max = Finite 5, dy_min = Finite 0,
        dy_max = Finite 1,
        d_initial_bounds = (Finite 1, Finite 5, Finite 0, Finite 1)\<rparr>, True)"
  by (simp add: double_eval)








text \<open>From the x range \<open>(1, 1 + 3 * 2^(-52))\<close> the x range has become wider.\<close>

lemma zoom_round_trip_double_wider:
  "handle_key_double ''n'' (handle_key_double ''u''
      (\<lparr>dx_min = Finite 1, dx_max = Finite (1 + 3 / 2 ^ 52),
        dy_min = Finite 1, dy_max = Finite (1 + 1 / 2 ^ 52),
        d_initial_bounds = (Finite 1, Finite (1 + 3 / 2 ^ 52), Finite 1, Finite (1 + 1 / 2 ^ 52))\<rparr>,
       True))
   = (\<lparr>dx_min = Finite (1 - 1 / 2 ^ 53), dx_max = Finite (1 + 3 / 2 ^ 52),
        dy_min = Finite 1, dy_max = Finite (1 + 1 / 2 ^ 52),
        d_initial_bounds = (Finite 1, Finite (1 + 3 / 2 ^ 52), Finite 1, Finite (1 + 1 / 2 ^ 52))\<rparr>,
       True)"
  by (simp add: double_eval)


text \<open>
  C10: for every Bounds, zoom-in (\<open>u\<close>) and zoom-out (\<open>n\<close>) each leave the midpoints
  \<open>(x_min + x_max) / 2\<close> and \<open>(y_min + y_max) / 2\<close> unchanged, in exact arithmetic.
\<close>

theorem zoom_keeps_midpoints:
  "(x_min (fst (handle_key ''u'' (opts, c))) + x_max (fst (handle_key ''u'' (opts, c)))) / 2
     = (x_min opts + x_max opts) / 2
   \<and> (y_min (fst (handle_key ''u'' (opts, c))) + y_max (fst (handle_key ''u'' (opts, c)))) / 2
     = (y_min opts + y_max opts) / 2
   \<and> (x_min (fst (handle_key ''n'' (opts, c))) + x_max (fst (handle_key ''n'' (opts, c)))) / 2
     = (x_min opts + x_max opts) / 2
   \<and> (y_min (fst (handle_key ''n'' (opts, c))) + y_max (fst (handle_key ''n'' (opts, c)))) / 2
     = (y_min opts + y_max opts) / 2"
  by (simp add: handle_key_u handle_key_n)

subsection \<open>What a transition leaves alone\<close>

text \<open>
  C6: pan-left and pan-right (\<open>h\<close>, \<open>l\<close>) leave \<open>y_min\<close> and \<open>y_max\<close> unchanged,
  pan-up and pan-down (\<open>j\<close>, \<open>k\<close>) leave \<open>x_min\<close> and \<open>x_max\<close> unchanged, and no
  transition, for any key at all, changes the grid width or height.
\<close>

theorem frame_of_transitions:
  "(y_min (fst (handle_key ''h'' (opts, c))), y_max (fst (handle_key ''h'' (opts, c))))
     = (y_min opts, y_max opts)
   \<and> (y_min (fst (handle_key ''l'' (opts, c))), y_max (fst (handle_key ''l'' (opts, c))))
     = (y_min opts, y_max opts)
   \<and> (x_min (fst (handle_key ''j'' (opts, c))), x_max (fst (handle_key ''j'' (opts, c))))
     = (x_min opts, x_max opts)
   \<and> (x_min (fst (handle_key ''k'' (opts, c))), x_max (fst (handle_key ''k'' (opts, c))))
     = (x_min opts, x_max opts)
   \<and> (width (fst (handle_key key_pressed (opts, c))), height (fst (handle_key key_pressed (opts, c))))
     = (width opts, height opts)"
  by (simp add: handle_key_h handle_key_l handle_key_j handle_key_k handle_key_fixed)

subsection \<open>The loop and its end\<close>

lemma print_rows_raises: "snd (print_rows m ls is) = Some e \<Longrightarrow> e = IndexError"
  by (induction "is") (auto simp add: Let_def split: if_splits)

lemma print_rows_ok:
  "\<forall>i \<in> set is. i < length m \<and> i < length ls \<Longrightarrow> snd (print_rows m ls is) = None"
  by (induction "is") (auto simp add: Let_def)

lemma render_frame_raises:
  "snd (render_frame E series opts i) = Some e \<Longrightarrow> e = IndexError"
  by (auto simp add: render_frame_def Let_def split: option.splits dest: print_rows_raises)

lemma render_frame_ok:
  assumes "one_row_per_line E series"
  shows "snd (render_frame E series opts i) = None"
proof -
  let ?m = "assemble_scatter_plot E (series_xs series) (series_ys series) opts"
  let ?ls = "yaxis_ticks E (y_min opts) (y_max opts) (height opts)"
  have "nat (height opts) \<le> length ?m" "nat (height opts) \<le> length ?ls"
    using assms by (simp_all add: one_row_per_line_def)
  then have "snd (print_rows ?m ?ls [0..<nat (height opts)]) = None"
    by (intro print_rows_ok) auto
  then show ?thesis by (simp add: render_frame_def Let_def)
qed

lemma main_loop_raises:
  "snd (main_loop E series keys opts i) = Raised e \<Longrightarrow> e = IndexError"
proof (induction keys arbitrary: opts i)
  case Nil
  then show ?case
    by (auto simp add: Let_def split: option.splits if_splits dest: render_frame_raises)
next
  case (Cons k keys)
  then show ?case
    by (auto simp add: Let_def split: option.splits if_splits dest: render_frame_raises)
qed

lemma main_loop_outcome:
  assumes "one_row_per_line E series"
  shows "interactive opts \<Longrightarrow>
         snd (main_loop E series keys opts i) =
           (if \<exists>k \<in> set keys. k = ''q'' \<or> k = escape_key then Returned else Waiting)"
proof (induction keys arbitrary: opts i)
  case Nil
  then show ?case by (simp add: render_frame_ok[OF assms] Let_def)
next
  case (Cons k keys)
  have c: "snd (handle_key k (opts, True)) = (k \<noteq> ''q'' \<and> k \<noteq> escape_key)"
    by (simp add: handle_key_continue)
  have i: "interactive (fst (handle_key k (opts, True)))"
    using Cons.prems by (simp add: handle_key_fixed)
  show ?case
  proof (cases "k = ''q'' \<or> k = escape_key")
    case True
    with c Cons.prems show ?thesis
      by (auto simp add: render_frame_ok[OF assms] Let_def)
  next
    case False
    with c have "snd (handle_key k (opts, True))" by simp
    with Cons.prems False Cons.IH[OF i] show ?thesis
      by (simp add: render_frame_ok[OF assms] Let_def)
  qed
qed

text \<open>
  \<open>key_loop\<close> is the state of that loop: the call returns exactly when
  \<^verbatim>\<open>continue_looping\<close> has become false.
\<close>

lemma key_loop_continue:
  "snd (key_loop keys (opts, c)) = (c \<and> \<not> (\<exists>k \<in> set keys. k = ''q'' \<or> k = escape_key))"
proof (induction keys arbitrary: opts c)
  case Nil
  then show ?case by simp
next
  case (Cons k keys)
  obtain opts' c' where h: "handle_key k (opts, c) = (opts', c')"
    by (cases "handle_key k (opts, c)")
  then have "c' = (c \<and> k \<noteq> ''q'' \<and> k \<noteq> escape_key)"
    using handle_key_continue[of k opts c] by simp
  with Cons.IH[of opts' c'] h show ?case by auto
qed

lemma main_loop_key_loop:
  assumes "one_row_per_line E series" and "interactive opts"
  shows "snd (main_loop E series keys opts i) =
           (if snd (key_loop keys (opts, True)) then Waiting else Returned)"
  using assms by (simp add: main_loop_outcome key_loop_continue)

text \<open>
  C7: in interactive mode the render loop returns exactly when a key read is \<open>q\<close> or
  escape (on keys without one it stays blocked waiting for the next key), and the
  quit transition leaves the Bounds unchanged; for every key outside
  \<open>h, j, k, l, u, n, r, q, escape\<close> the iteration changes nothing and the loop goes on.
  The collaborators are taken to return a row for every line of the grid, so that the
  rendering does not raise.
\<close>

theorem quit_keys_end_the_loop:
  assumes "interactive opts" and "one_row_per_line E series"
  shows "snd (main_loop E series keys opts i) =
           (if \<exists>k \<in> set keys. k = ''q'' \<or> k = escape_key then Returned else Waiting)
       \<and> snd (handle_key key_pressed (opts, True)) =
           (key_pressed \<noteq> ''q'' \<and> key_pressed \<noteq> escape_key)
       \<and> (key_pressed = ''q'' \<or> key_pressed = escape_key \<longrightarrow>
            bounds (fst (handle_key key_pressed (opts, True))) = bounds opts)
       \<and> (key_pressed \<notin> {''h'', ''j'', ''k'', ''l'', ''u'', ''n'', ''r'', ''q'', escape_key} \<longrightarrow>
            handle_key key_pressed (opts, True) = (opts, True))"
  using assms
  by (simp add: main_loop_outcome handle_key_continue handle_key_quit handle_key_other)

theorem quit_keys_end_the_loop_witness:
  "interactive \<lparr>x_min = 0, x_max = 10, y_min = 0, y_max = 5, width = 20, height = 4,
       lines = False, color = False, interactive = True, title = None,
       legend_labels = None, initial_bounds = (0, 10, 0, 5)\<rparr>
   \<and> one_row_per_line
        \<lparr>plot_title = (\<lambda>t w. t), yaxis_ticks = (\<lambda>lo hi h. replicate (nat h) []),
          xaxis_ticks = (\<lambda>lo hi w. []), legend = (\<lambda>ls w. []),
          assemble_scatter_plot = (\<lambda>xs ys opts. replicate (nat (height opts)) [])\<rparr>
        \<lparr>series_xs = [[0, 1]], series_ys = [[2, 3]]\<rparr>
   \<and> snd (main_loop
        \<lparr>plot_title = (\<lambda>t w. t), yaxis_ticks = (\<lambda>lo hi h. replicate (nat h) []),
          xaxis_ticks = (\<lambda>lo hi w. []), legend = (\<lambda>ls w. []),
          assemble_scatter_plot = (\<lambda>xs ys opts. replicate (nat (height opts)) [])\<rparr>
        \<lparr>series_xs = [[0, 1]], series_ys = [[2, 3]]\<rparr>
        [''h'', ''x'', ''q'', ''l'']
        \<lparr>x_min = 0, x_max = 10, y_min = 0, y_max = 5, width = 20, height = 4,
          lines = False, color = False, interactive = True, title = None,
          legend_labels = None, initial_bounds = (0, 10, 0, 5)\<rparr> 0) = Returned
   \<and> snd (main_loop
        \<lparr>plot_title = (\<lambda>t w. t), yaxis_ticks = (\<lambda>lo hi h. replicate (nat h) []),
          xaxis_ticks = (\<lambda>lo hi w. []), legend = (\<lambda>ls w. []),
          assemble_scatter_plot = (\<lambda>xs ys opts. replicate (nat (height opts)) [])\<rparr>
        \<lparr>series_xs = [[0, 1]], series_ys = [[2, 3]]\<rparr>
        [''h'', ''x'', ''u'']
        \<lparr>x_min = 0, x_max = 10, y_min = 0, y_max = 5, width = 20, height = 4,
          lines = False, color = False, interactive = True, title = None,
          legend_labels = None, initial_bounds = (0, 10, 0, 5)\<rparr> 0) = Waiting
   \<and> handle_key ''x''
        (\<lparr>x_min = 0, x_max = 10, y_min = 0, y_max = 5, width = 20, height = 4,
          lines = False, color = False, interactive = True, title = None,
          legend_labels = None, initial_bounds = (0, 10, 0, 5)\<rparr>, True)
      = (\<lparr>x_min = 0, x_max = 10, y_min = 0, y_max = 5, width = 20, height = 4,
          lines = False, color = False, interactive = True, title = None,
          legend_labels = None, initial_bounds = (0, 10, 0, 5)\<rparr>, True)
   \<and> \<not> snd (handle_key escape_key
        (\<lparr>x_min = 0, x_max = 10, y_min = 0, y_max = 5, width = 20, height = 4,
          lines = False, color = False, interactive = True, title = None,
          legend_labels = None, initial_bounds = (0, 10, 0, 5)\<rparr>, True))
   \<and> bounds (fst (handle_key escape_key
        (\<lparr>x_min = 0, x_max = 10, y_min = 0, y_max = 5, width = 20, height = 4,
          lines = False, color = False, interactive = True, title = None,
          legend_labels = None, initial_bounds = (0, 10, 0, 5)\<rparr>, True)))
      = (0, 10, 0, 5)"
proof -
  let ?start = "\<lparr>x_min = 0, x_max = 10, y_min = 0, y_max = 5, width = 20, height = 4,
       lines = False, color = False, interactive = True, title = None,
       legend_labels = None, initial_bounds = (0, 10, 0, 5)\<rparr>"
  let ?E = "\<lparr>plot_title = (\<lambda>t w. t), yaxis_ticks = (\<lambda>lo hi h. replicate (nat h) []),
          xaxis_ticks = (\<lambda>lo hi w. []), legend = (\<lambda>ls w. []),
          assemble_scatter_plot = (\<lambda>xs ys opts. replicate (nat (height opts)) [])\<rparr>"
  let ?S = "\<lparr>series_xs = [[0, 1]], series_ys = [[2, 3]]\<rparr>"
  have h1: "interactive ?start" by simp
  have h2: "one_row_per_line ?E ?S" by (simp add: one_row_per_line_def)
  have h3: "bounds ?start = (0, 10, 0, 5)" by (simp add: bounds_def)
  from quit_keys_end_the_loop[OF h1 h2, of "[''h'', ''x'', ''q'', ''l'']" 0 "''x''"]
    quit_keys_end_the_loop[OF h1 h2, of "[''h'', ''x'', ''u'']" 0 escape_key] h1 h2 h3
  show ?thesis by (simp add: escape_key_def)
qed

subsection \<open>Validation comes first\<close>

lemma plot_raises_validation:
  assumes "snd (plot E ys xs kwargs keys) = Raised e" and "e \<noteq> IndexError"
  shows "fst (plot E ys xs kwargs keys) = []"
  using assms
  by (auto simp add: plot_def Let_def split: sum.splits dest: main_loop_raises)

text \<open>
  C8: for every input of \<open>plot\<close>, a failure of the series normalisation or of the
  option validation ends the call with nothing printed; a call that raises
  \<open>ShapeMismatch\<close>, \<open>InvalidDimension\<close> or \<open>LabelCountMismatch\<close> has printed nothing;
  and whenever a line has been printed, both steps had succeeded.
\<close>

theorem validation_precedes_output:
  "(MultiSeries xs ys = Inl e \<longrightarrow> plot E ys xs kwargs keys = ([], Raised e))
   \<and> (MultiSeries xs ys = Inr series \<and> validate_and_transform_options series kwargs = Inl e
        \<longrightarrow> plot E ys xs kwargs keys = ([], Raised e))
   \<and> (snd (plot E ys xs kwargs keys) = Raised e
        \<and> e \<in> {ShapeMismatch, InvalidDimension, LabelCountMismatch}
        \<longrightarrow> fst (plot E ys xs kwargs keys) = [])
   \<and> (fst (plot E ys xs kwargs keys) \<noteq> [] \<longrightarrow>
        (\<exists>s opts. MultiSeries xs ys = Inr s \<and> validate_and_transform_options s kwargs = Inr opts))"
proof (intro conjI impI)
  assume "snd (plot E ys xs kwargs keys) = Raised e
        \<and> e \<in> {ShapeMismatch, InvalidDimension, LabelCountMismatch}"
  then show "fst (plot E ys xs kwargs keys) = []"
    by (intro plot_raises_validation[of _ _ _ _ _ e]) auto
qed (auto simp add: plot_def split: sum.splits)

theorem validation_precedes_output_witness:
  "MultiSeries (Some (Flat [0])) (Flat [0, 1]) = Inl ShapeMismatch
   \<and> plot
        \<lparr>plot_title = (\<lambda>t w. t), yaxis_ticks = (\<lambda>lo hi h. replicate (nat h) []),
          xaxis_ticks = (\<lambda>lo hi w. []), legend = (\<lambda>ls w. []),
          assemble_scatter_plot = (\<lambda>xs ys opts. replicate (nat (height opts)) [])\<rparr>
        (Flat [0, 1]) (Some (Flat [0]))
        \<lparr>kw_width = Some 4, kw_height = Some 4, kw_x_min = None, kw_x_max = None,
          kw_y_min = None, kw_y_max = None, kw_lines = None, kw_color = None,
          kw_interactive = None, kw_title = Some ''t'',
          kw_legend_labels = None\<rparr> []
     = ([], Raised ShapeMismatch)
   \<and> MultiSeries None (Flat [0, 1, 2, 3])
     = Inr \<lparr>series_xs = [[0, 1, 2, 3]], series_ys = [[0, 1, 2, 3]]\<rparr>
   \<and> validate_and_transform_options \<lparr>series_xs = [[0, 1, 2, 3]], series_ys = [[0, 1, 2, 3]]\<rparr>
        \<lparr>kw_width = Some 4, kw_height = Some 4, kw_x_min = None, kw_x_max = None,
          kw_y_min = None, kw_y_max = None, kw_lines = None, kw_color = None,
          kw_interactive = None, kw_title = Some ''t'',
          kw_legend_labels = Some [''a'', ''b'']\<rparr>
     = Inl LabelCountMismatch
   \<and> plot
        \<lparr>plot_title = (\<lambda>t w. t), yaxis_ticks = (\<lambda>lo hi h. replicate (nat h) []),
          xaxis_ticks = (\<lambda>lo hi w. []), legend = (\<lambda>ls w. []),
          assemble_scatter_plot = (\<lambda>xs ys opts. replicate (nat (height opts)) [])\<rparr>
        (Flat [0, 1, 2, 3]) None
        \<lparr>kw_width = Some 4, kw_height = Some 4, kw_x_min = None, kw_x_max = None,
          kw_y_min = None, kw_y_max = None, kw_lines = None, kw_color = None,
          kw_interactive = None, kw_title = Some ''t'',
          kw_legend_labels = Some [''a'', ''b'']\<rparr> []
     = ([], Raised LabelCountMismatch)
   \<and> plot
        \<lparr>plot_title = (\<lambda>t w. t), yaxis_ticks = (\<lambda>lo hi h. replicate (nat h) []),
          xaxis_ticks = (\<lambda>lo hi w. []), legend = (\<lambda>ls w. []),
          assemble_scatter_plot = (\<lambda>xs ys opts. replicate (nat (height opts)) [])\<rparr>
        (Flat [0, 1, 2, 3]) None
        \<lparr>kw_width = Some 4, kw_height = Some 2, kw_x_min = None, kw_x_max = None,
          kw_y_min = None, kw_y_max = None, kw_lines = None, kw_color = None,
          kw_interactive = None, kw_title = Some ''t'',
          kw_legend_labels = None\<rparr> []
     = ([Title ''t'', TopBorder 4, Row [] [], Row [] [], BottomBorder 4, XAxis []], Returned)
   \<and> validate_and_transform_options \<lparr>series_xs = [[0, 1, 2, 3]], series_ys = [[0, 1, 2, 3]]\<rparr>
        \<lparr>kw_width = Some 4, kw_height = Some 2, kw_x_min = None, kw_x_max = None,
          kw_y_min = None, kw_y_max = None, kw_lines = None, kw_color = None,
          kw_interactive = None, kw_title = Some ''t'',
          kw_legend_labels = None\<rparr>
     = Inr \<lparr>x_min = 0, x_max = 3, y_min = 0, y_max = 3, width = 4, height = 2,
            lines = False, color = False, interactive = False, title = Some ''t'',
            legend_labels = None, initial_bounds = (0, 3, 0, 3)\<rparr>"
proof -
  let ?S = "\<lparr>series_xs = [[0, 1, 2, 3]], series_ys = [[0, 1, 2, 3]]\<rparr>"
  let ?bad = "\<lparr>kw_width = Some 4, kw_height = Some 4, kw_x_min = None, kw_x_max = None,
          kw_y_min = None, kw_y_max = None, kw_lines = None, kw_color = None,
          kw_interactive = None, kw_title = Some ''t'',
          kw_legend_labels = Some [''a'', ''b'']\<rparr>"
  let ?plain = "\<lparr>kw_width = Some 4, kw_height = Some 4, kw_x_min = None, kw_x_max = None,
          kw_y_min = None, kw_y_max = None, kw_lines = None, kw_color = None,
          kw_interactive = None, kw_title = Some ''t'',
          kw_legend_labels = None\<rparr>"
  let ?good = "\<lparr>kw_width = Some 4, kw_height = Some 2, kw_x_min = None, kw_x_max = None,
          kw_y_min = None, kw_y_max = None, kw_lines = None, kw_color = None,
          kw_interactive = None, kw_title = Some ''t'',
          kw_legend_labels = None\<rparr>"
  let ?E = "\<lparr>plot_title = (\<lambda>t w. t), yaxis_ticks = (\<lambda>lo hi h. replicate (nat h) []),
          xaxis_ticks = (\<lambda>lo hi w. []), legend = (\<lambda>ls w. []),
          assemble_scatter_plot = (\<lambda>xs ys opts. replicate (nat (height opts)) [])\<rparr>"
  have h0: "MultiSeries (Some (Flat [0])) (Flat [0, 1]) = Inl ShapeMismatch"
    by (simp add: MultiSeries_def Let_def)
  have h1: "MultiSeries None (Flat [0, 1, 2, 3]) = Inr ?S"
    by (simp add: MultiSeries_def Let_def upt_rec)
  have h2: "validate_and_transform_options ?S ?bad = Inl LabelCountMismatch"
    by (simp add: validate_and_transform_options_def Let_def or_default_def)
  have h3: "validate_and_transform_options ?S ?good
     = Inr \<lparr>x_min = 0, x_max = 3, y_min = 0, y_max = 3, width = 4, height = 2,
            lines = False, color = False, interactive = False, title = Some ''t'',
            legend_labels = None, initial_bounds = (0, 3, 0, 3)\<rparr>"
    by (simp add: validate_and_transform_options_def Let_def or_default_def default_range_def)
  have h4: "plot ?E (Flat [0, 1, 2, 3]) None ?good []
     = ([Title ''t'', TopBorder 4, Row [] [], Row [] [], BottomBorder 4, XAxis []], Returned)"
    by (simp add: plot_def h1 h3 render_frame_def Let_def upt_rec)
  from validation_precedes_output[of "Some (Flat [0])" "Flat [0, 1]" ShapeMismatch ?E ?plain "[]" ?S]
    validation_precedes_output[of None "Flat [0, 1, 2, 3]" LabelCountMismatch ?E ?bad "[]" ?S]
    validation_precedes_output[of None "Flat [0, 1, 2, 3]" LabelCountMismatch ?E ?good "[]" ?S]
    h0 h1 h2 h3 h4
  show ?thesis by simp
qed

subsection \<open>Tick positions\<close>

text \<open>The search ends at a power of ten that is at least \<open>r\<close>, the next lower one is not.\<close>

lemma pow10_up_bounds:
  "0 < p \<Longrightarrow> p / 10 < r \<Longrightarrow> r \<le> pow10_up p r \<and> pow10_up p r / 10 < r"
proof (induction p r rule: pow10_up.induct)
  case (1 p r)
  show ?case
  proof (cases "p < r")
    case True
    with "1.prems" have eq: "pow10_up p r = pow10_up (10 * p) r"
      by (subst pow10_up.simps) simp
    have "0 < 10 * p" "10 * p / 10 < r" using "1.prems" True by simp_all
    with "1.IH" "1.prems" True show ?thesis by (simp only: eq)
  next
    case False
    then have "pow10_up p r = p" by (subst pow10_up.simps) simp
    with False "1.prems" show ?thesis by simp
  qed
qed

lemma pow10_down_bounds:
  "0 < r \<Longrightarrow> r \<le> p \<Longrightarrow> r \<le> pow10_down p r \<and> pow10_down p r / 10 < r"
proof (induction p r rule: pow10_down.induct)
  case (1 p r)
  show ?case
  proof (cases "r \<le> p / 10")
    case True
    with "1.prems" have eq: "pow10_down p r = pow10_down (p / 10) r"
      by (subst pow10_down.simps) simp
    from "1.IH" "1.prems" True show ?thesis by (simp only: eq)
  next
    case False
    then have "pow10_down p r = p" by (subst pow10_down.simps) simp
    with False "1.prems" show ?thesis by simp
  qed
qed

lemma decade_bounds:
  assumes "0 < r"
  shows "r \<le> decade r" and "decade r / 10 < r"
proof -
  have "r \<le> decade r \<and> decade r / 10 < r"
  proof (cases "1 < r")
    case True
    then show ?thesis using pow10_up_bounds[of 1 r] by (simp add: decade_def)
  next
    case False
    then show ?thesis using pow10_down_bounds[of r 1] assms by (simp add: decade_def)
  qed
  then show "r \<le> decade r" and "decade r / 10 < r" by simp_all
qed

lemma nice_step_ge:
  assumes "0 < raw_step"
  shows "raw_step \<le> nice_step raw_step"
  using decade_bounds(1)[OF assms] by (simp add: nice_step_def Let_def)

lemma nice_step_pos:
  assumes "0 < raw_step"
  shows "0 < nice_step raw_step"
  using nice_step_ge[OF assms] assms by linarith

lemma tick_count:
  fixes range_min range_max step :: real
  assumes "0 < slot_count" and "range_min < range_max"
    and "(range_max - range_min) / of_int slot_count \<le> step"
  shows "length [\<lceil>range_min / step\<rceil> .. \<lfloor>range_max / step\<rfloor>] \<le> nat slot_count + 1"
proof -
  have n: "(0::real) < of_int slot_count" using assms(1) by simp
  have "0 < (range_max - range_min) / of_int slot_count" using assms(1,2) by simp
  with assms(3) have s: "0 < step" by linarith
  have "range_max - range_min \<le> step * of_int slot_count"
    using assms(3) n by (simp add: pos_divide_le_eq)
  then have "(range_max - range_min) / step \<le> of_int slot_count"
    using s by (simp add: pos_divide_le_eq mult.commute)
  then have d: "range_max / step - range_min / step \<le> of_int slot_count"
    by (simp add: diff_divide_distrib)
  have f: "of_int \<lfloor>range_max / step\<rfloor> \<le> range_max / step" by (rule of_int_floor_le)
  have c: "range_min / step \<le> of_int \<lceil>range_min / step\<rceil>" by (rule le_of_int_ceiling)
  have "(of_int \<lfloor>range_max / step\<rfloor> - of_int \<lceil>range_min / step\<rceil> :: real)
          \<le> of_int slot_count"
    using d f c by linarith
  then have "(of_int (\<lfloor>range_max / step\<rfloor> - \<lceil>range_min / step\<rceil>) :: real) \<le> of_int slot_count"
    by simp
  then have "\<lfloor>range_max / step\<rfloor> - \<lceil>range_min / step\<rceil> \<le> slot_count"
    by (simp only: of_int_le_iff)
  then show ?thesis using assms(1) by (simp add: length_upto)
qed

lemma tick_positions_count:
  assumes "tick_positions range_min range_max slot_count = Some ts"
  shows "length ts \<le> nat slot_count + 1"
proof -
  from assms obtain step where st: "tick_step range_min range_max slot_count = Some step"
    and ts: "ts = map (\<lambda>i. of_int i * step) [\<lceil>range_min / step\<rceil> .. \<lfloor>range_max / step\<rfloor>]"
    by (auto simp add: tick_positions_def split: option.splits)
  from st have pos: "0 < slot_count" "range_min < range_max"
    and step: "step = nice_step ((range_max - range_min) / of_int slot_count)"
    by (auto simp add: tick_step_def split: if_splits)
  have "0 < (range_max - range_min) / of_int slot_count" using pos by simp
  from nice_step_ge[OF this] have "(range_max - range_min) / of_int slot_count \<le> step"
    by (simp add: step)
  from tick_count[OF pos this] show ?thesis by (simp add: ts)
qed

text \<open>
  \<open>nice_step\<close> is the rounding of the specification: a candidate step, at least the
  raw step, and the least such.
\<close>

lemma pow10_up_power: "0 < p \<Longrightarrow> \<exists>n::nat. pow10_up p r = p * 10 ^ n"
proof (induction p r rule: pow10_up.induct)
  case (1 p r)
  show ?case
  proof (cases "p < r")
    case True
    with "1.prems" have eq: "pow10_up p r = pow10_up (10 * p) r"
      by (subst pow10_up.simps) simp
    from "1.IH" "1.prems" True obtain n :: nat where "pow10_up (10 * p) r = 10 * p * 10 ^ n"
      by auto
    then have "pow10_up p r = p * 10 ^ Suc n" by (simp add: eq)
    then show ?thesis by blast
  next
    case False
    then have "pow10_up p r = p * 10 ^ 0" by (subst pow10_up.simps) simp
    then show ?thesis by blast
  qed
qed

lemma pow10_down_power: "\<exists>n::nat. pow10_down p r = p / 10 ^ n"
proof (induction p r rule: pow10_down.induct)
  case (1 p r)
  show ?case
  proof (cases "0 < r \<and> r \<le> p / 10")
    case True
    then have eq: "pow10_down p r = pow10_down (p / 10) r"
      by (subst pow10_down.simps) simp
    from "1.IH" True obtain n :: nat where "pow10_down (p / 10) r = p / 10 / 10 ^ n"
      by auto
    then have "pow10_down p r = p / 10 ^ Suc n" by (simp add: eq)
    then show ?thesis by blast
  next
    case False
    then have "pow10_down p r = p / 10 ^ 0" by (subst pow10_down.simps) auto
    then show ?thesis by blast
  qed
qed

lemma decade_power: "\<exists>k::int. decade r = 10 powi k"
proof (cases "1 < r")
  case True
  obtain n :: nat where "pow10_up 1 r = 1 * 10 ^ n"
    using pow10_up_power[of 1 r] by auto
  with True have "decade r = 10 powi int n" by (simp add: decade_def)
  then show ?thesis by blast
next
  case False
  obtain n :: nat where "pow10_down 1 r = 1 / 10 ^ n"
    using pow10_down_power[of 1 r] by auto
  with False have "decade r = 10 powi (- int n)"
    by (simp add: decade_def power_int_minus_divide)
  then show ?thesis by blast
qed

lemma nice_step_cases:
  "nice_step r = decade r / 5 \<or> nice_step r = decade r / 2 \<or> nice_step r = decade r"
  by (simp add: nice_step_def Let_def)

lemma nice_step_in_nice_values: "nice_step r \<in> nice_values"
proof -
  obtain k :: int where d: "decade r = 10 powi k" using decade_power by blast
  have t: "(10::real) powi k = 10 * 10 powi (k - 1)"
    by (simp add: power_int_diff)
  have "decade r / 5 = 2 * 10 powi (k - 1)" "decade r / 2 = 5 * 10 powi (k - 1)"
    "decade r = 1 * 10 powi k"
    using t by (simp_all add: d)
  then have "decade r / 5 \<in> nice_values" "decade r / 2 \<in> nice_values" "decade r \<in> nice_values"
    unfolding nice_values_def by blast+
  from nice_step_cases[of r] this show ?thesis
    by (elim disjE) (simp_all only:)
qed

lemma nice_step_least:
  assumes "0 < r" and "s \<in> nice_values" and "r \<le> s"
  shows "nice_step r \<le> s"
proof -
  obtain k :: int where d: "decade r = 10 powi k" using decade_power by blast
  from assms(2) obtain m :: real and j :: int where s: "s = m * 10 powi j" and m: "m \<in> {1, 2, 5}"
    by (auto simp add: nice_values_def)
  have dpos: "0 < decade r" by (simp add: d)
  have lo: "decade r / 10 < r" and hi: "r \<le> decade r"
    using decade_bounds[OF assms(1)] by simp_all
  have top: "nice_step r \<le> decade r"
    using nice_step_cases[of r] dpos by auto
  have pj: "(0::real) < 10 powi j" by simp
  consider "k \<le> j" | "j \<le> k - 2" | "j = k - 1" by linarith
  then show ?thesis
  proof cases
    case 1
    then have "(10::real) powi k \<le> 10 powi j" by (intro power_int_increasing) simp_all
    also have "\<dots> \<le> s" using m pj by (auto simp add: s)
    finally show ?thesis using top by (simp add: d)
  next
    case 2
    then have "(10::real) powi j \<le> 10 powi (k - 2)" by (intro power_int_increasing) simp_all
    also have "\<dots> = decade r / 100" by (simp add: d power_int_diff)
    finally have "10 powi j \<le> decade r / 100" .
    have "s \<le> 5 * 10 powi j" using m pj by (auto simp add: s)
    with \<open>10 powi j \<le> decade r / 100\<close> have "s \<le> 5 * (decade r / 100)" by linarith
    with lo dpos assms(3) show ?thesis by linarith
  next
    case 3
    then have e: "(10::real) powi j = decade r / 10" by (simp add: d power_int_diff)
    from m consider "m = 1" | "m = 2" | "m = 5" by auto
    then show ?thesis
    proof cases
      case 1
      with e s lo assms(3) show ?thesis by simp
    next
      case 2
      with e s have "s = decade r / 5" by simp
      with assms(3) show ?thesis by (simp add: nice_step_def Let_def)
    next
      case 3
      with e s have "s = decade r / 2" by simp
      with assms(3) dpos show ?thesis by (simp add: nice_step_def Let_def)
    qed
  qed
qed

text \<open>
  C9 (amended): for every range and slot count the tick positions number at most
  \<open>slot_count + 1\<close>; for the range (0, 100) with 10 slots the step is 10 and the
  ticks are 0, 10, 20, ..., 100.
\<close>

theorem ticks_at_most_slots_plus_one:
  "(tick_positions range_min range_max slot_count = Some ts \<longrightarrow> length ts \<le> nat slot_count + 1)
   \<and> tick_step 0 100 10 = Some 10
   \<and> tick_positions 0 100 10 = Some [0, 10, 20, 30, 40, 50, 60, 70, 80, 90, 100]"
proof (intro conjI impI)
  assume "tick_positions range_min range_max slot_count = Some ts"
  then show "length ts \<le> nat slot_count + 1" by (rule tick_positions_count)
next
  show "tick_step 0 100 10 = Some 10"
    by (simp add: tick_step_def nice_step_def decade_def pow10_up.simps pow10_down.simps)
next
  show "tick_positions 0 100 10 = Some [0, 10, 20, 30, 40, 50, 60, 70, 80, 90, 100]"
    by (simp add: tick_positions_def tick_step_def nice_step_def decade_def pow10_up.simps pow10_down.simps upto.simps)
qed

theorem ticks_at_most_slots_plus_one_witness:
  "tick_positions 0 100 10 = Some [0, 10, 20, 30, 40, 50, 60, 70, 80, 90, 100]
   \<and> length [0, 10, 20, 30, 40, 50, 60, 70, 80, 90, 100 :: real] \<le> nat 10 + 1
   \<and> tick_step 0 100 10 = Some 10"
  using ticks_at_most_slots_plus_one[of 0 100 10 "[0, 10, 20, 30, 40, 50, 60, 70, 80, 90, 100]"]
  by simp

text \<open>
  With \<open>slot_count\<close> itself as the bound the sentence fails at its own example: the
  ticks 0, 10, ..., 100 of the range (0, 100) with 10 slots are eleven.
\<close>

theorem tick_count_counterexample:
  "tick_positions 0 100 10 = Some [0, 10, 20, 30, 40, 50, 60, 70, 80, 90, 100]
   \<and> \<not> length (the (tick_positions 0 100 10)) \<le> nat 10"
  by (simp add: tick_positions_def tick_step_def nice_step_def decade_def pow10_up.simps pow10_down.simps upto.simps)

end
